theory Spec2Isabelle
  imports Complex_Main "HOL-Library.Word"
begin

section \<open>Charge-transfer diagnostics from cube files: a model of \<open>ict.py\<close>\<close>

text \<open>
  The script reads two Gaussian cube files, splits the density difference into its
  positive and negative parts, and derives the centroids of the two parts, their
  distance (DCT) and the transferred charge (qCT).

  Densities are modelled as real numbers, as the data model of the specification has
  them; rounding of the binary floating-point numbers of numpy is not part of the model.
  Exceptions are values of the type \<open>error\<close>; every function returns the log records
  it has emitted together with either an error or its result.
\<close>

subsection \<open>Errors and the log\<close>

datatype error =
    FileNotFoundError
  | IndexError
  | ValueError
  | DivisionByZero

datatype level = DEBUG | INFO | WARNING | ERROR

type_synonym shape = "nat \<times> nat \<times> nat"

datatype message =
    ReadingCubeFile
  | CubeFileNotFound
  | NumberOfAtoms int
  | OriginOfGrid "real list"
  | GridAxis nat int "real list"
  | SuccessfullyRead
  | DensityDataShape shape
  | ComputedDensityDifferences
  | DeltaRhoPositiveSum real
  | DeltaRhoNegativeSum real
  | TotalDensityZero
  | CalculatedCentroid "real list"
  | ComputedDctQct
  | DctValue real
  | QctValue real
  | CentroidPlus "real list"
  | CentroidMinus "real list"
  | StartingCalculation
  | ErrorReadingCubeFiles error
  | MismatchInGridSize

type_synonym log = "(level \<times> message) list"

subsection \<open>Three-dimensional arrays\<close>

text \<open>
  A numpy array of three dimensions: its shape and its elements in row-major order
  (first axis slowest), so that element \<open>[i, j, k]\<close> of an array of shape
  \<open>(nx, ny, nz)\<close> is at position \<open>(i * ny + j) * nz + k\<close>.
\<close>

record ndarray =
  shape :: shape
  elems :: "real list"

definition size_of :: "shape \<Rightarrow> nat" where
  "size_of s = (case s of (nx, ny, nz) \<Rightarrow> nx * ny * nz)"

definition well_formed :: "ndarray \<Rightarrow> bool" where
  "well_formed a = (length (elems a) = size_of (shape a))"

definition item :: "ndarray \<Rightarrow> nat \<Rightarrow> nat \<Rightarrow> nat \<Rightarrow> real" where
  "item a i j k = (case shape a of (nx, ny, nz) \<Rightarrow> elems a ! ((i * ny + j) * nz + k))"

definition index_grid :: "shape \<Rightarrow> (nat \<times> nat \<times> nat) list" where
  "index_grid s = (case s of (nx, ny, nz) \<Rightarrow>
     concat (map (\<lambda>i. concat (map (\<lambda>j. map (\<lambda>k. (i, j, k)) [0..<nz]) [0..<ny])) [0..<nx]))"

text \<open>
  Broadcasting of numpy: two axis lengths are compatible when they are equal or one of
  them is 1; an axis of length 1 is read at index 0 throughout.
\<close>

definition broadcast_dim :: "nat \<Rightarrow> nat \<Rightarrow> nat option" where
  "broadcast_dim a b =
     (if a = b then Some a else if a = 1 then Some b else if b = 1 then Some a else None)"

definition broadcast_shapes :: "shape \<Rightarrow> shape \<Rightarrow> shape option" where
  "broadcast_shapes s t = (case (s, t) of ((a1, a2, a3), (b1, b2, b3)) \<Rightarrow>
     (case (broadcast_dim a1 b1, broadcast_dim a2 b2, broadcast_dim a3 b3) of
        (Some c1, Some c2, Some c3) \<Rightarrow> Some (c1, c2, c3)
      | _ \<Rightarrow> None))"

definition broadcast_index :: "nat \<Rightarrow> nat \<Rightarrow> nat" where
  "broadcast_index n i = (if n = 1 then 0 else i)"

definition broadcast_to :: "ndarray \<Rightarrow> shape \<Rightarrow> real list" where
  "broadcast_to a s = (case shape a of (nx, ny, nz) \<Rightarrow>
     map (\<lambda>(i, j, k). item a (broadcast_index nx i) (broadcast_index ny j) (broadcast_index nz k))
       (index_grid s))"

text \<open>
  An arithmetic operator on two arrays: elementwise on arrays of one shape, on the
  broadcast arrays when the shapes are compatible, a \<open>ValueError\<close> otherwise.
\<close>

definition elementwise :: "(real \<Rightarrow> real \<Rightarrow> real) \<Rightarrow> ndarray \<Rightarrow> ndarray \<Rightarrow> error + ndarray" where
  "elementwise f a b =
     (if shape a = shape b
      then Inr \<lparr>shape = shape a, elems = map2 f (elems a) (elems b)\<rparr>
      else (case broadcast_shapes (shape a) (shape b) of
              None \<Rightarrow> Inl ValueError
            | Some s \<Rightarrow> Inr \<lparr>shape = s, elems = map2 f (broadcast_to a s) (broadcast_to b s)\<rparr>))"

definition np_subtract :: "ndarray \<Rightarrow> ndarray \<Rightarrow> error + ndarray" where
  "np_subtract = elementwise (\<lambda>x y. x - y)"

definition np_add :: "ndarray \<Rightarrow> ndarray \<Rightarrow> error + ndarray" where
  "np_add = elementwise (\<lambda>x y. x + y)"

definition np_multiply :: "ndarray \<Rightarrow> ndarray \<Rightarrow> error + ndarray" where
  "np_multiply = elementwise (\<lambda>x y. x * y)"

definition np_sum :: "ndarray \<Rightarrow> real" where
  "np_sum a = sum_list (elems a)"

text \<open>\<open>np.where(cond(a), a, 0)\<close>: the elements that satisfy the condition, 0 elsewhere.\<close>

definition np_where :: "(real \<Rightarrow> bool) \<Rightarrow> ndarray \<Rightarrow> ndarray" where
  "np_where c a = \<lparr>shape = shape a, elems = map (\<lambda>x. if c x then x else 0) (elems a)\<rparr>"

subsection \<open>\<open>compute_density_difference\<close>\<close>

definition compute_density_difference ::
  "ndarray \<Rightarrow> ndarray \<Rightarrow> log \<times> (error + ndarray \<times> ndarray)" where
  "compute_density_difference ground_density excited_density =
     (case np_subtract excited_density ground_density of
        Inl e \<Rightarrow> ([], Inl e)
      | Inr delta_rho \<Rightarrow>
          (let delta_rho_plus = np_where (\<lambda>x. x > 0) delta_rho;
               delta_rho_minus = np_where (\<lambda>x. x < 0) delta_rho
           in ([(INFO, ComputedDensityDifferences),
                (DEBUG, DeltaRhoPositiveSum (np_sum delta_rho_plus)),
                (DEBUG, DeltaRhoNegativeSum (np_sum delta_rho_minus))],
               Inr (delta_rho_plus, delta_rho_minus))))"

subsection \<open>\<open>calculate_centroid\<close>\<close>

text \<open>Indexing a list at a position from 0: an \<open>IndexError\<close> beyond its end.\<close>

definition py_nth :: "'a list \<Rightarrow> nat \<Rightarrow> error + 'a" where
  "py_nth xs i = (if i < length xs then Inr (xs ! i) else Inl IndexError)"

text \<open>The results of a list of computations, or the first error in the order of the list.\<close>

fun sequence :: "(error + 'a) list \<Rightarrow> error + 'a list" where
  "sequence [] = Inr []"
| "sequence (r # rs) =
     (case r of
        Inl e \<Rightarrow> Inl e
      | Inr x \<Rightarrow> (case sequence rs of Inl e \<Rightarrow> Inl e | Inr xs \<Rightarrow> Inr (x # xs)))"

text \<open>
  \<open>np.indices(grid_size)\<close> and \<open>np.zeros((3,) + tuple(grid_size))\<close> raise a
  \<open>ValueError\<close> on a negative dimension; otherwise the index arrays have the shape
  \<open>grid_size\<close>, and \<open>grid_indices[idx]\<close> holds component \<open>idx\<close> of every index.
\<close>

definition np_indices :: "int \<times> int \<times> int \<Rightarrow> error + shape" where
  "np_indices grid_size = (case grid_size of (nx, ny, nz) \<Rightarrow>
     if nx < 0 \<or> ny < 0 \<or> nz < 0 then Inl ValueError else Inr (nat nx, nat ny, nat nz))"

definition component :: "nat \<Rightarrow> nat \<times> nat \<times> nat \<Rightarrow> nat" where
  "component idx t = (case t of (i, j, k) \<Rightarrow> if idx = 0 then i else if idx = 1 then j else k)"

text \<open>
  The task of the first pool:
  \<open>origin[idx] + grid_indices[idx] * grid_spacing[idx][idx]\<close>.
\<close>

definition grid_position :: "real list \<Rightarrow> shape \<Rightarrow> real list list \<Rightarrow> nat \<Rightarrow> error + ndarray" where
  "grid_position origin s grid_spacing idx =
     (case py_nth origin idx of
        Inl e \<Rightarrow> Inl e
      | Inr org \<Rightarrow>
          (case py_nth grid_spacing idx of
             Inl e \<Rightarrow> Inl e
           | Inr row \<Rightarrow>
               (case py_nth row idx of
                  Inl e \<Rightarrow> Inl e
                | Inr step \<Rightarrow>
                    Inr \<lparr>shape = s,
                         elems = map (\<lambda>t. org + real (component idx t) * step) (index_grid s)\<rparr>)))"

text \<open>
  Division of two numpy floats. By zero numpy gives an infinity or a NaN with a warning;
  the real numbers have neither, so the model marks the division as \<open>DivisionByZero\<close>.
\<close>

definition true_divide :: "real \<Rightarrow> real \<Rightarrow> error + real" where
  "true_divide a b = (if b = 0 then Inl DivisionByZero else Inr (a / b))"

text \<open>
  The task of the second pool:
  \<open>np.sum(grid_positions[idx] * density) / total_density\<close>.
\<close>

definition weighted_mean :: "ndarray \<Rightarrow> real \<Rightarrow> ndarray \<Rightarrow> error + real" where
  "weighted_mean density total_density positions =
     (case np_multiply positions density of
        Inl e \<Rightarrow> Inl e
      | Inr weighted \<Rightarrow> true_divide (np_sum weighted) total_density)"

text \<open>
  The three tasks of each pool are independent, and \<open>future.result()\<close> is called on
  them in the order of the axes, so the first failing axis raises: the pools are modelled
  as \<open>sequence\<close> over the axes 0, 1, 2.
\<close>

definition calculate_centroid ::
  "ndarray \<Rightarrow> real list \<Rightarrow> int \<times> int \<times> int \<Rightarrow> real list list \<Rightarrow> log \<times> (error + real list)" where
  "calculate_centroid density origin grid_size grid_spacing =
     (let total_density = np_sum density
      in if total_density = 0 then ([(WARNING, TotalDensityZero)], Inr [0, 0, 0])
         else (case np_indices grid_size of
                 Inl e \<Rightarrow> ([], Inl e)
               | Inr s \<Rightarrow>
                   (case sequence (map (grid_position origin s grid_spacing) [0, 1, 2]) of
                      Inl e \<Rightarrow> ([], Inl e)
                    | Inr grid_positions \<Rightarrow>
                        (case sequence (map (weighted_mean density total_density) grid_positions) of
                           Inl e \<Rightarrow> ([], Inl e)
                         | Inr centroid \<Rightarrow>
                             ([(DEBUG, CalculatedCentroid centroid)], Inr centroid)))))"

subsection \<open>\<open>compute_dct_and_qct\<close>\<close>

text \<open>\<open>np.linalg.norm\<close> of a vector: the square root of the sum of the squares.\<close>

definition linalg_norm :: "real list \<Rightarrow> real" where
  "linalg_norm v = sqrt (sum_list (map (\<lambda>x. x * x) v))"

definition vector_minus :: "real list \<Rightarrow> real list \<Rightarrow> real list" where
  "vector_minus u v = map2 (\<lambda>x y. x - y) u v"

definition compute_dct_and_qct ::
  "ndarray \<Rightarrow> ndarray \<Rightarrow> real list \<Rightarrow> int \<times> int \<times> int \<Rightarrow> real list list
     \<Rightarrow> log \<times> (error + real \<times> real \<times> real list \<times> real list)" where
  "compute_dct_and_qct delta_rho_plus delta_rho_minus origin grid_size grid_spacing =
     (case calculate_centroid delta_rho_plus origin grid_size grid_spacing of
        (l1, Inl e) \<Rightarrow> (l1, Inl e)
      | (l1, Inr centroid_plus) \<Rightarrow>
          (case calculate_centroid delta_rho_minus origin grid_size grid_spacing of
             (l2, Inl e) \<Rightarrow> (l1 @ l2, Inl e)
           | (l2, Inr centroid_minus) \<Rightarrow>
               (let dct = linalg_norm (vector_minus centroid_plus centroid_minus);
                    qct = np_sum delta_rho_plus
                in (l1 @ l2 @
                      [(INFO, ComputedDctQct), (DEBUG, DctValue dct), (DEBUG, QctValue qct),
                       (DEBUG, CentroidPlus centroid_plus), (DEBUG, CentroidMinus centroid_minus)],
                    Inr (dct, qct, centroid_plus, centroid_minus)))))"

subsection \<open>Files, lines and tokens\<close>





subsection \<open>\<open>read_cube_file\<close>\<close>




type_synonym grid_size = "64 word \<times> 64 word \<times> 64 word"








subsection \<open>\<open>main\<close>\<close>




subsection \<open>Notions of the specification\<close>

text \<open>The indices of the cells of a grid of a given shape.\<close>

definition in_grid :: "shape \<Rightarrow> nat \<Rightarrow> nat \<Rightarrow> nat \<Rightarrow> bool" where
  "in_grid s i j k = (case s of (nx, ny, nz) \<Rightarrow> i < nx \<and> j < ny \<and> k < nz)"

text \<open>
  What \<open>compute_density_difference\<close> leaves of one cell: the difference where it is
  positive, and the difference where it is negative.
\<close>

definition positive_part :: "real \<Rightarrow> real \<Rightarrow> real" where
  "positive_part x g = (if x - g > 0 then x - g else 0)"

definition negative_part :: "real \<Rightarrow> real \<Rightarrow> real" where
  "negative_part x g = (if x - g < 0 then x - g else 0)"

text \<open>The Euclidean distance of two points of space.\<close>

definition euclidean_distance :: "real list \<Rightarrow> real list \<Rightarrow> real" where
  "euclidean_distance u v =
     sqrt ((u ! 0 - v ! 0)\<^sup>2 + (u ! 1 - v ! 1)\<^sup>2 + (u ! 2 - v ! 2)\<^sup>2)"

text \<open>The sum of a quantity over the cells of a grid.\<close>

definition grid_sum :: "shape \<Rightarrow> (nat \<Rightarrow> nat \<Rightarrow> nat \<Rightarrow> real) \<Rightarrow> real" where
  "grid_sum s f = (case s of (nx, ny, nz) \<Rightarrow> (\<Sum>i<nx. \<Sum>j<ny. \<Sum>k<nz. f i j k))"

text \<open>
  The position on axis \<open>a\<close> of the grid index \<open>n\<close> along that axis:
  \<open>origin[a] + n * grid_spacing[a][a]\<close>.
\<close>

definition axis_position :: "real list \<Rightarrow> real list list \<Rightarrow> nat \<Rightarrow> nat \<Rightarrow> real" where
  "axis_position origin grid_spacing a n = origin ! a + real n * (grid_spacing ! a ! a)"

text \<open>The density-weighted mean position on axis \<open>a\<close>: \<open>sum(position * density) / sum(density)\<close>.\<close>

definition weighted_mean_position :: "ndarray \<Rightarrow> real list \<Rightarrow> real list list \<Rightarrow> nat \<Rightarrow> real" where
  "weighted_mean_position density origin grid_spacing a =
     grid_sum (shape density)
       (\<lambda>i j k. axis_position origin grid_spacing a (component a (i, j, k)) * item density i j k)
     / grid_sum (shape density) (\<lambda>i j k. item density i j k)"

text \<open>
  The data model: a density field has exactly the shape \<open>grid_size\<close>, the origin has three
  components and the spacing matrix has its three diagonal entries.
\<close>

definition on_grid :: "ndarray \<Rightarrow> int \<times> int \<times> int \<Rightarrow> bool" where
  "on_grid density grid_size = (case grid_size of (nx, ny, nz) \<Rightarrow>
     0 \<le> nx \<and> 0 \<le> ny \<and> 0 \<le> nz \<and> shape density = (nat nx, nat ny, nat nz) \<and>
     well_formed density)"

definition has_diagonal :: "real list \<Rightarrow> real list list \<Rightarrow> bool" where
  "has_diagonal origin grid_spacing =
     (3 \<le> length origin \<and> 3 \<le> length grid_spacing \<and> 1 \<le> length (grid_spacing ! 0) \<and>
      2 \<le> length (grid_spacing ! 1) \<and> 3 \<le> length (grid_spacing ! 2))"

text \<open>The elementwise negative of an array.\<close>

definition np_negative :: "ndarray \<Rightarrow> ndarray" where
  "np_negative a = \<lparr>shape = shape a, elems = map uminus (elems a)\<rparr>"

text \<open>
  The computation of \<open>main\<close> on two densities that have been read, lines 209 and 212:
  \<open>compute_density_difference\<close>, then \<open>compute_dct_and_qct\<close> on its two outputs, without
  the log.
\<close>

definition pipeline ::
  "ndarray \<Rightarrow> ndarray \<Rightarrow> real list \<Rightarrow> int \<times> int \<times> int \<Rightarrow> real list list
     \<Rightarrow> error + real \<times> real \<times> real list \<times> real list" where
  "pipeline ground excited origin grid_size grid_spacing =
     (case snd (compute_density_difference ground excited) of
        Inl e \<Rightarrow> Inl e
      | Inr (delta_rho_plus, delta_rho_minus) \<Rightarrow>
          snd (compute_dct_and_qct delta_rho_plus delta_rho_minus origin grid_size grid_spacing))"




subsection \<open>Example files\<close>













section \<open>Properties\<close>

subsection \<open>The centroid of a density without mass\<close>

text \<open>
  Claim C4. A density whose total is zero has the zero vector as its centroid, for any
  geometry: the call returns normally, with a warning in the log.
\<close>

theorem zero_total_density_centroid:
  "np_sum density = 0 \<Longrightarrow>
   calculate_centroid density origin grid_size grid_spacing =
     ([(WARNING, TotalDensityZero)], Inr [0, 0, 0])"
  by (simp add: calculate_centroid_def)

theorem zero_total_density_centroid_witness:
  "np_sum \<lparr>shape = (2, 1, 1), elems = [1, - 1]\<rparr> = 0 \<and>
   calculate_centroid \<lparr>shape = (2, 1, 1), elems = [1, - 1]\<rparr> [] (- 3, 0, 7) [[5]] =
     ([(WARNING, TotalDensityZero)], Inr [0, 0, 0])"
proof -
  have h: "np_sum \<lparr>shape = (2, 1, 1), elems = [1, - 1]\<rparr> = 0" by (simp add: np_sum_def)
  show ?thesis using h zero_total_density_centroid [OF h] by simp
qed


subsection \<open>No division by zero\<close>

lemma true_divide_nonzero: "b \<noteq> 0 \<Longrightarrow> true_divide a b = Inr (a / b)"
  by (simp add: true_divide_def)

lemma weighted_mean_no_division_by_zero:
  "t \<noteq> 0 \<Longrightarrow> weighted_mean d t p \<noteq> Inl DivisionByZero"
  by (simp add: weighted_mean_def np_multiply_def elementwise_def true_divide_def
      split: sum.splits option.splits)

lemma sequence_Inl_iff: "sequence rs = Inl e \<Longrightarrow> Inl e \<in> set rs"
  by (induction rs) (auto split: sum.splits)

lemma grid_position_no_division_by_zero:
  "grid_position origin s sp idx \<noteq> Inl DivisionByZero"
  by (simp add: grid_position_def py_nth_def)

lemma np_indices_no_division_by_zero: "np_indices gs \<noteq> Inl DivisionByZero"
  by (simp add: np_indices_def split: prod.splits)

text \<open>
  Claim C10. \<open>calculate_centroid\<close> never divides by zero: whatever the density and the
  geometry, its outcome is not the division by zero of the model, since a total of zero
  returns before the division is reached.
\<close>

theorem calculate_centroid_never_divides_by_zero:
  "snd (calculate_centroid density origin grid_size grid_spacing) \<noteq> Inl DivisionByZero"
proof (cases "np_sum density = 0")
  case True
  then show ?thesis by (simp add: calculate_centroid_def)
next
  case False
  show ?thesis
  proof (cases "np_indices grid_size")
    case (Inl e)
    then show ?thesis
      using False np_indices_no_division_by_zero [of grid_size]
      by (simp add: calculate_centroid_def)
  next
    case s: (Inr s)
    show ?thesis
    proof (cases "sequence (map (grid_position origin s grid_spacing) [0, 1, 2])")
      case (Inl e)
      then have "Inl e \<in> set (map (grid_position origin s grid_spacing) [0, 1, 2])"
        by (rule sequence_Inl_iff)
      then have "e \<noteq> DivisionByZero"
        using grid_position_no_division_by_zero by fastforce
      then show ?thesis
        using False s Inl by (simp add: calculate_centroid_def del: sequence.simps)
    next
      case ps: (Inr ps)
      show ?thesis
      proof (cases "sequence (map (weighted_mean density (np_sum density)) ps)")
        case (Inl e)
        then have "Inl e \<in> set (map (weighted_mean density (np_sum density)) ps)"
          by (rule sequence_Inl_iff)
        then have "e \<noteq> DivisionByZero"
          using weighted_mean_no_division_by_zero [OF False] by fastforce
        then show ?thesis
          using False s ps Inl by (simp add: calculate_centroid_def del: sequence.simps)
      next
        case (Inr c)
        then show ?thesis
          using False s ps by (simp add: calculate_centroid_def del: sequence.simps)
      qed
    qed
  qed
qed


subsection \<open>The density difference\<close>

lemma flat_index_less:
  assumes "i < nx" "j < ny" "k < (nz::nat)"
  shows "(i * ny + j) * nz + k < nx * ny * nz"
proof -
  have "i * ny + j < nx * ny"
  proof -
    have "i * ny + j < i * ny + ny" using assms by simp
    also have "\<dots> = Suc i * ny" by simp
    also have "\<dots> \<le> nx * ny" using assms by (intro mult_le_mono1) simp
    finally show ?thesis .
  qed
  then have "Suc (i * ny + j) \<le> nx * ny" by simp
  then have "Suc (i * ny + j) * nz \<le> nx * ny * nz" by (rule mult_le_mono1)
  moreover have "(i * ny + j) * nz + k < Suc (i * ny + j) * nz" using assms by simp
  ultimately show ?thesis by linarith
qed

lemma density_difference_same_shape:
  assumes "shape ground = shape excited"
  shows "snd (compute_density_difference ground excited) =
     Inr (\<lparr>shape = shape excited, elems = map2 positive_part (elems excited) (elems ground)\<rparr>,
          \<lparr>shape = shape excited, elems = map2 negative_part (elems excited) (elems ground)\<rparr>)"
  using assms
  by (simp add: compute_density_difference_def np_subtract_def elementwise_def np_where_def
      Let_def map_zip_map2 map_map comp_def case_prod_unfold positive_part_def negative_part_def)

lemma item_map2:
  assumes "shape a = s" "shape b = s" "well_formed a" "well_formed b" "in_grid s i j k"
  shows "item \<lparr>shape = s, elems = map2 f (elems a) (elems b)\<rparr> i j k = f (item a i j k) (item b i j k)"
proof -
  obtain nx ny nz where s: "s = (nx, ny, nz)" by (cases s)
  have "(i * ny + j) * nz + k < nx * ny * nz"
    using assms(5) s by (simp add: in_grid_def flat_index_less)
  then show ?thesis
    using assms s by (simp add: item_def well_formed_def size_of_def)
qed

text \<open>
  Claim C2. For two arrays of one shape, \<open>compute_density_difference\<close> returns two
  arrays of that shape: at every cell the first holds \<open>max (excited - ground) 0\<close> and the
  second \<open>min (excited - ground) 0\<close>, and their elementwise sum is exactly
  \<open>excited - ground\<close>.
\<close>

theorem density_difference_decomposition:
  assumes "shape ground = shape excited" "well_formed ground" "well_formed excited"
  shows "case snd (compute_density_difference ground excited) of
           Inl e \<Rightarrow> False
         | Inr (delta_rho_plus, delta_rho_minus) \<Rightarrow>
             shape delta_rho_plus = shape excited \<and> shape delta_rho_minus = shape excited \<and>
             well_formed delta_rho_plus \<and> well_formed delta_rho_minus \<and>
             (\<forall>i j k. in_grid (shape excited) i j k \<longrightarrow>
                item delta_rho_plus i j k = max (item excited i j k - item ground i j k) 0 \<and>
                item delta_rho_minus i j k = min (item excited i j k - item ground i j k) 0) \<and>
             np_add delta_rho_plus delta_rho_minus = np_subtract excited ground"
proof -
  let ?p = "\<lparr>shape = shape excited, elems = map2 positive_part (elems excited) (elems ground)\<rparr>"
  let ?m = "\<lparr>shape = shape excited, elems = map2 negative_part (elems excited) (elems ground)\<rparr>"
  have r: "snd (compute_density_difference ground excited) = Inr (?p, ?m)"
    using assms(1) by (rule density_difference_same_shape)
  have len: "length (elems ground) = length (elems excited)"
    using assms by (simp add: well_formed_def)
  have wf: "well_formed ?p" "well_formed ?m"
    using assms len by (simp_all add: well_formed_def)
  have items: "item ?p i j k = max (item excited i j k - item ground i j k) 0 \<and>
               item ?m i j k = min (item excited i j k - item ground i j k) 0"
    if "in_grid (shape excited) i j k" for i j k
    using item_map2 [OF refl assms(1) assms(3) assms(2) that]
    by (simp add: positive_part_def negative_part_def max_def min_def)
  have "map2 (\<lambda>x y. x + y) (map2 positive_part xs ys) (map2 negative_part xs ys)
        = map2 (\<lambda>x y. x - y) xs ys" for xs ys :: "real list"
    by (induction xs ys rule: list_induct2') (simp_all add: positive_part_def negative_part_def)
  then have sum: "np_add ?p ?m = np_subtract excited ground"
    using assms(1) by (simp add: np_add_def np_subtract_def elementwise_def)
  show ?thesis
    using wf items sum by (simp add: r)
qed

theorem density_difference_decomposition_witness:
  "shape \<lparr>shape = (2, 1, 1), elems = [1, 5]\<rparr> = shape \<lparr>shape = (2, 1, 1), elems = [3, 2]\<rparr> \<and>
   well_formed \<lparr>shape = (2, 1, 1), elems = [1, 5]\<rparr> \<and>
   well_formed \<lparr>shape = (2, 1, 1), elems = [3, 2]\<rparr> \<and>
   snd (compute_density_difference \<lparr>shape = (2, 1, 1), elems = [1, 5]\<rparr>
          \<lparr>shape = (2, 1, 1), elems = [3, 2]\<rparr>) =
     Inr (\<lparr>shape = (2, 1, 1), elems = [2, 0]\<rparr>, \<lparr>shape = (2, 1, 1), elems = [0, - 3]\<rparr>) \<and>
   in_grid (2, 1, 1) 1 0 0 \<and>
   item \<lparr>shape = (2, 1, 1), elems = [0, - 3]\<rparr> 1 0 0 = min (item \<lparr>shape = (2, 1, 1), elems = [3, 2]\<rparr> 1 0 0 - item \<lparr>shape = (2, 1, 1), elems = [1, 5]\<rparr> 1 0 0) 0 \<and>
   np_add \<lparr>shape = (2, 1, 1), elems = [2, 0]\<rparr> \<lparr>shape = (2, 1, 1), elems = [0, - 3]\<rparr> =
     np_subtract \<lparr>shape = (2, 1, 1), elems = [3, 2]\<rparr> \<lparr>shape = (2, 1, 1), elems = [1, 5]\<rparr>"
proof -
  let ?g = "\<lparr>shape = (2, 1, 1), elems = [1, 5]\<rparr>"
  let ?e = "\<lparr>shape = (2, 1, 1), elems = [3, 2]\<rparr>"
  have h1: "shape ?g = shape ?e" by simp
  have h2: "well_formed ?g" by (simp add: well_formed_def size_of_def)
  have h3: "well_formed ?e" by (simp add: well_formed_def size_of_def)
  have r: "snd (compute_density_difference ?g ?e) =
     Inr (\<lparr>shape = (2, 1, 1), elems = [2, 0]\<rparr>, \<lparr>shape = (2, 1, 1), elems = [0, - 3]\<rparr>)"
    by (simp add: compute_density_difference_def np_subtract_def elementwise_def np_where_def Let_def)
  have g: "in_grid (2, 1, 1) 1 0 0" by (simp add: in_grid_def)
  note t = density_difference_decomposition [OF h1 h2 h3, unfolded r]
  show ?thesis
    using t h2 h3 g unfolding r by simp
qed

text \<open>
  The difference of the two parts is not \<open>excited - ground\<close>: where the ground density
  is 1 and the excited density is 0, the parts are 0 and -1, and their difference is 1.
\<close>

theorem density_difference_minus_counterexample:
  "snd (compute_density_difference \<lparr>shape = (1, 1, 1), elems = [1]\<rparr>
          \<lparr>shape = (1, 1, 1), elems = [0]\<rparr>) =
     Inr (\<lparr>shape = (1, 1, 1), elems = [0]\<rparr>, \<lparr>shape = (1, 1, 1), elems = [- 1]\<rparr>) \<and>
   np_subtract \<lparr>shape = (1, 1, 1), elems = [0]\<rparr> \<lparr>shape = (1, 1, 1), elems = [- 1]\<rparr> \<noteq>
     np_subtract \<lparr>shape = (1, 1, 1), elems = [0]\<rparr> \<lparr>shape = (1, 1, 1), elems = [1]\<rparr>"
  by (simp add: compute_density_difference_def np_subtract_def elementwise_def np_where_def Let_def)

lemma map2_parts_add:
  "map2 (\<lambda>x y. x + y) (map2 positive_part xs ys) (map2 negative_part xs ys)
     = map2 (\<lambda>x y. x - y) xs ys"
  by (induction xs ys rule: list_induct2') (simp_all add: positive_part_def negative_part_def)

lemma map2_parts_minus:
  "map2 (\<lambda>x y. x - y) (map2 positive_part xs ys) (map2 negative_part xs ys)
     = map2 (\<lambda>x y. \<bar>x - y\<bar>) xs ys"
  by (induction xs ys rule: list_induct2') (simp_all add: positive_part_def negative_part_def)

lemma map2_parts_times:
  "map2 (\<lambda>x y. x * y) (map2 positive_part xs ys) (map2 negative_part xs ys)
     = map2 (\<lambda>x y. 0) xs ys"
  by (induction xs ys rule: list_induct2') (simp_all add: positive_part_def negative_part_def)

text \<open>
  Claim C5, amended. For two arrays of one shape, the sum of the two parts is exactly
  \<open>excited - ground\<close>, their difference is its absolute value at every cell, and their
  product is 0 at every cell.
\<close>

theorem density_difference_parts_disjoint:
  assumes "shape ground = shape excited"
  shows "case snd (compute_density_difference ground excited) of
           Inl e \<Rightarrow> False
         | Inr (delta_rho_plus, delta_rho_minus) \<Rightarrow>
             np_add delta_rho_plus delta_rho_minus = np_subtract excited ground \<and>
             np_subtract delta_rho_plus delta_rho_minus =
               Inr \<lparr>shape = shape excited,
                    elems = map2 (\<lambda>x g. \<bar>x - g\<bar>) (elems excited) (elems ground)\<rparr> \<and>
             np_multiply delta_rho_plus delta_rho_minus =
               Inr \<lparr>shape = shape excited,
                    elems = map2 (\<lambda>x g. 0) (elems excited) (elems ground)\<rparr>"
  using assms
  by (simp add: density_difference_same_shape np_add_def np_subtract_def np_multiply_def
      elementwise_def map2_parts_add map2_parts_minus map2_parts_times)

theorem density_difference_parts_disjoint_witness:
  "shape \<lparr>shape = (2, 1, 1), elems = [1, 5]\<rparr> = shape \<lparr>shape = (2, 1, 1), elems = [3, 2]\<rparr> \<and>
   snd (compute_density_difference \<lparr>shape = (2, 1, 1), elems = [1, 5]\<rparr>
          \<lparr>shape = (2, 1, 1), elems = [3, 2]\<rparr>) =
     Inr (\<lparr>shape = (2, 1, 1), elems = [2, 0]\<rparr>, \<lparr>shape = (2, 1, 1), elems = [0, - 3]\<rparr>) \<and>
   np_subtract \<lparr>shape = (2, 1, 1), elems = [2, 0]\<rparr> \<lparr>shape = (2, 1, 1), elems = [0, - 3]\<rparr> =
     Inr \<lparr>shape = (2, 1, 1), elems = [2, 3]\<rparr> \<and>
   np_multiply \<lparr>shape = (2, 1, 1), elems = [2, 0]\<rparr> \<lparr>shape = (2, 1, 1), elems = [0, - 3]\<rparr> =
     Inr \<lparr>shape = (2, 1, 1), elems = [0, 0]\<rparr>"
proof -
  let ?g = "\<lparr>shape = (2, 1, 1), elems = [1, 5]\<rparr>"
  let ?e = "\<lparr>shape = (2, 1, 1), elems = [3, 2]\<rparr>"
  have h1: "shape ?g = shape ?e" by simp
  have r: "snd (compute_density_difference ?g ?e) =
     Inr (\<lparr>shape = (2, 1, 1), elems = [2, 0]\<rparr>, \<lparr>shape = (2, 1, 1), elems = [0, - 3]\<rparr>)"
    by (simp add: compute_density_difference_def np_subtract_def elementwise_def np_where_def Let_def)
  note t = density_difference_parts_disjoint [OF h1, unfolded r]
  show ?thesis
    using t unfolding r by simp
qed

subsection \<open>Distance and charge\<close>

lemma sequence_length: "sequence rs = Inr xs \<Longrightarrow> length xs = length rs"
  by (induction rs arbitrary: xs) (auto split: sum.splits)

lemma calculate_centroid_length:
  assumes "snd (calculate_centroid density origin grid_size grid_spacing) = Inr c"
  shows "length c = 3"
proof (cases "np_sum density = 0")
  case True
  then show ?thesis using assms by (auto simp: calculate_centroid_def)
next
  case False
  from assms False obtain s ps where
    ps: "sequence (map (grid_position origin s grid_spacing) [0, 1, 2]) = Inr ps" and
    c: "sequence (map (weighted_mean density (np_sum density)) ps) = Inr c"
    by (auto simp: calculate_centroid_def Let_def simp del: sequence.simps split: sum.splits)
  from sequence_length [OF ps] sequence_length [OF c] show ?thesis by simp
qed

lemma norm_of_difference:
  assumes "length u = 3" "length v = 3"
  shows "linalg_norm (vector_minus u v) = euclidean_distance u v"
proof -
  obtain u0 u1 u2 where u: "u = [u0, u1, u2]"
    using assms(1) by (auto simp: length_Suc_conv numeral_3_eq_3)
  obtain v0 v1 v2 where v: "v = [v0, v1, v2]"
    using assms(2) by (auto simp: length_Suc_conv numeral_3_eq_3)
  show ?thesis
    by (simp add: u v linalg_norm_def vector_minus_def euclidean_distance_def power2_eq_square)
qed

lemma compute_dct_and_qct_result:
  "snd (compute_dct_and_qct delta_rho_plus delta_rho_minus origin grid_size grid_spacing) =
     (case snd (calculate_centroid delta_rho_plus origin grid_size grid_spacing) of
        Inl e \<Rightarrow> Inl e
      | Inr centroid_plus \<Rightarrow>
          (case snd (calculate_centroid delta_rho_minus origin grid_size grid_spacing) of
             Inl e \<Rightarrow> Inl e
           | Inr centroid_minus \<Rightarrow>
               Inr (euclidean_distance centroid_plus centroid_minus, np_sum delta_rho_plus,
                    centroid_plus, centroid_minus)))"
proof (cases "calculate_centroid delta_rho_plus origin grid_size grid_spacing")
  case p: (Pair l1 r1)
  show ?thesis
  proof (cases r1)
    case (Inl e)
    then show ?thesis using p by (simp add: compute_dct_and_qct_def)
  next
    case cp: (Inr cp)
    have lp: "length cp = 3"
      by (rule calculate_centroid_length [of delta_rho_plus origin grid_size grid_spacing])
        (simp add: p cp)
    show ?thesis
    proof (cases "calculate_centroid delta_rho_minus origin grid_size grid_spacing")
      case m: (Pair l2 r2)
      show ?thesis
      proof (cases r2)
        case (Inl e)
        then show ?thesis using p cp m by (simp add: compute_dct_and_qct_def)
      next
        case cm: (Inr cm)
        have lm: "length cm = 3"
          by (rule calculate_centroid_length [of delta_rho_minus origin grid_size grid_spacing])
            (simp add: m cm)
        show ?thesis
          using p cp m cm norm_of_difference [OF lp lm]
          by (simp add: compute_dct_and_qct_def Let_def)
      qed
    qed
  qed
qed

text \<open>
  Claim C3. \<open>compute_dct_and_qct\<close> returns, with the two centroids that
  \<open>calculate_centroid\<close> gives for the positive and the negative part, their Euclidean
  distance as dct and the sum of the positive part as qct; an error of either centroid
  is passed on.
\<close>

theorem dct_and_qct_composition:
  "snd (compute_dct_and_qct delta_rho_plus delta_rho_minus origin grid_size grid_spacing) =
     (case snd (calculate_centroid delta_rho_plus origin grid_size grid_spacing) of
        Inl e \<Rightarrow> Inl e
      | Inr centroid_plus \<Rightarrow>
          (case snd (calculate_centroid delta_rho_minus origin grid_size grid_spacing) of
             Inl e \<Rightarrow> Inl e
           | Inr centroid_minus \<Rightarrow>
               Inr (euclidean_distance centroid_plus centroid_minus, np_sum delta_rho_plus,
                    centroid_plus, centroid_minus)))"
  by (rule compute_dct_and_qct_result)

lemma sum_list_nonneg_real: "(\<And>x. x \<in> set xs \<Longrightarrow> 0 \<le> x) \<Longrightarrow> 0 \<le> sum_list (xs :: real list)"
  by (induction xs) auto

lemma positive_part_nonneg: "x \<in> set (map2 positive_part xs ys) \<Longrightarrow> 0 \<le> x"
  by (auto simp: positive_part_def set_zip)

lemma negative_part_nonpos: "x \<in> set (map2 negative_part xs ys) \<Longrightarrow> x \<le> 0"
  by (auto simp: negative_part_def set_zip)

lemma compute_dct_and_qct_qct:
  "snd (compute_dct_and_qct p m origin grid_size grid_spacing) = Inr (dct, qct, cp, cm)
   \<Longrightarrow> qct = np_sum p"
  by (auto simp: compute_dct_and_qct_def Let_def split: prod.splits sum.splits)

text \<open>
  Claim C9. For two arrays of one shape, every element of the first output of
  \<open>compute_density_difference\<close> is at least 0 and every element of the second at most
  0, and any qct that \<open>compute_dct_and_qct\<close> returns on them is at least 0.
\<close>

theorem density_difference_signs:
  assumes "shape ground = shape excited"
  shows "case snd (compute_density_difference ground excited) of
           Inl e \<Rightarrow> False
         | Inr (delta_rho_plus, delta_rho_minus) \<Rightarrow>
             (\<forall>x \<in> set (elems delta_rho_plus). 0 \<le> x) \<and>
             (\<forall>x \<in> set (elems delta_rho_minus). x \<le> 0) \<and>
             (\<forall>origin grid_size grid_spacing dct qct centroid_plus centroid_minus.
                snd (compute_dct_and_qct delta_rho_plus delta_rho_minus
                       origin grid_size grid_spacing)
                  = Inr (dct, qct, centroid_plus, centroid_minus) \<longrightarrow> 0 \<le> qct)"
proof -
  let ?p = "\<lparr>shape = shape excited, elems = map2 positive_part (elems excited) (elems ground)\<rparr>"
  let ?m = "\<lparr>shape = shape excited, elems = map2 negative_part (elems excited) (elems ground)\<rparr>"
  have r: "snd (compute_density_difference ground excited) = Inr (?p, ?m)"
    using assms by (rule density_difference_same_shape)
  have p: "\<forall>x \<in> set (elems ?p). 0 \<le> x" using positive_part_nonneg by auto
  have m: "\<forall>x \<in> set (elems ?m). x \<le> 0" using negative_part_nonpos by auto
  have "0 \<le> np_sum ?p"
    unfolding np_sum_def by (rule sum_list_nonneg_real) (use p in blast)
  then have q: "0 \<le> qct"
    if "snd (compute_dct_and_qct ?p ?m origin grid_size grid_spacing) = Inr (dct, qct, cp, cm)"
    for origin grid_size grid_spacing dct qct cp cm
    using compute_dct_and_qct_qct [OF that] by simp
  show ?thesis
    unfolding r using p m q by simp blast
qed

text \<open>A grid of two cells along the first axis, with unit spacing.\<close>

lemma centroid_example_plus:
  "calculate_centroid \<lparr>shape = (2, 1, 1), elems = [2, 0]\<rparr> [0, 0, 0] (2, 1, 1)
     [[1, 0, 0], [0, 1, 0], [0, 0, 1]] = ([(DEBUG, CalculatedCentroid [0, 0, 0])], Inr [0, 0, 0])"
  by code_simp

lemma centroid_example_minus:
  "calculate_centroid \<lparr>shape = (2, 1, 1), elems = [0, - 3]\<rparr> [0, 0, 0] (2, 1, 1)
     [[1, 0, 0], [0, 1, 0], [0, 0, 1]] = ([(DEBUG, CalculatedCentroid [1, 0, 0])], Inr [1, 0, 0])"
  by code_simp

lemma dct_and_qct_example:
  "snd (compute_dct_and_qct \<lparr>shape = (2, 1, 1), elems = [2, 0]\<rparr>
          \<lparr>shape = (2, 1, 1), elems = [0, - 3]\<rparr> [0, 0, 0] (2, 1, 1)
          [[1, 0, 0], [0, 1, 0], [0, 0, 1]]) = Inr (1, 2, [0, 0, 0], [1, 0, 0])"
  unfolding compute_dct_and_qct_def centroid_example_plus centroid_example_minus
  by (simp add: linalg_norm_def vector_minus_def np_sum_def)

lemma density_difference_example:
  "snd (compute_density_difference \<lparr>shape = (2, 1, 1), elems = [1, 5]\<rparr>
          \<lparr>shape = (2, 1, 1), elems = [3, 2]\<rparr>) =
     Inr (\<lparr>shape = (2, 1, 1), elems = [2, 0]\<rparr>, \<lparr>shape = (2, 1, 1), elems = [0, - 3]\<rparr>)"
  by (simp add: compute_density_difference_def np_subtract_def elementwise_def np_where_def Let_def)

theorem density_difference_signs_witness:
  "shape \<lparr>shape = (2, 1, 1), elems = [1, 5]\<rparr> = shape \<lparr>shape = (2, 1, 1), elems = [3, 2]\<rparr> \<and>
   snd (compute_density_difference \<lparr>shape = (2, 1, 1), elems = [1, 5]\<rparr>
          \<lparr>shape = (2, 1, 1), elems = [3, 2]\<rparr>) =
     Inr (\<lparr>shape = (2, 1, 1), elems = [2, 0]\<rparr>, \<lparr>shape = (2, 1, 1), elems = [0, - 3]\<rparr>) \<and>
   snd (compute_dct_and_qct \<lparr>shape = (2, 1, 1), elems = [2, 0]\<rparr>
          \<lparr>shape = (2, 1, 1), elems = [0, - 3]\<rparr> [0, 0, 0] (2, 1, 1)
          [[1, 0, 0], [0, 1, 0], [0, 0, 1]]) = Inr (1, 2, [0, 0, 0], [1, 0, 0]) \<and>
   (0::real) \<le> 2"
proof -
  have h: "shape \<lparr>shape = (2, 1, 1), elems = [1, 5]\<rparr> = shape \<lparr>shape = (2, 1, 1), elems = [3, 2]\<rparr>"
    by simp
  note t = density_difference_signs [OF h, unfolded density_difference_example]
  from t have "\<forall>origin grid_size grid_spacing dct qct centroid_plus centroid_minus.
       snd (compute_dct_and_qct \<lparr>shape = (2, 1, 1), elems = [2, 0]\<rparr>
              \<lparr>shape = (2, 1, 1), elems = [0, - 3]\<rparr> origin grid_size grid_spacing)
         = Inr (dct, qct, centroid_plus, centroid_minus) \<longrightarrow> 0 \<le> qct"
    by simp
  then have "(0::real) \<le> 2" using dct_and_qct_example by blast
  then show ?thesis
    using h density_difference_example dct_and_qct_example by simp
qed

theorem dct_and_qct_composition_witness:
  "snd (compute_dct_and_qct \<lparr>shape = (2, 1, 1), elems = [2, 0]\<rparr>
          \<lparr>shape = (2, 1, 1), elems = [0, - 3]\<rparr> [0, 0, 0] (2, 1, 1)
          [[1, 0, 0], [0, 1, 0], [0, 0, 1]]) =
     Inr (euclidean_distance [0, 0, 0] [1, 0, 0], 2, [0, 0, 0], [1, 0, 0])"
  using dct_and_qct_composition [of "\<lparr>shape = (2, 1, 1), elems = [2, 0]\<rparr>"
          "\<lparr>shape = (2, 1, 1), elems = [0, - 3]\<rparr>" "[0, 0, 0]" "(2, 1, 1)"
          "[[1, 0, 0], [0, 1, 0], [0, 0, 1]]"]
  unfolding centroid_example_plus centroid_example_minus
  by (simp add: np_sum_def)

subsection \<open>The centroid as a weighted mean\<close>

lemma sum_list_map2_upt:
  assumes "length zs = m"
  shows "sum_list (map2 h (map f [0..<m]) zs) = (\<Sum>k<m. h (f k) (zs ! k))"
proof -
  have "zip (map f [0..<m]) zs = map (\<lambda>k. (f k, zs ! k)) [0..<m]"
    using assms by (intro nth_equalityI) simp_all
  then have "map2 h (map f [0..<m]) zs = map (\<lambda>k. h (f k) (zs ! k)) [0..<m]"
    by simp
  then show ?thesis
    by (simp add: interv_sum_list_conv_sum_set_nat atLeast0LessThan)
qed

lemma length_concat_rows:
  assumes "\<And>i. i < n \<Longrightarrow> length (R i) = m"
  shows "length (concat (map R [0..<n])) = n * m"
  using assms by (induction n) simp_all

lemma sum_list_map2_concat:
  assumes "length ys = n * m" "\<And>i. i < n \<Longrightarrow> length (R i) = m"
  shows "sum_list (map2 h (concat (map R [0..<n])) ys) =
         (\<Sum>i<n. sum_list (map2 h (R i) (take m (drop (i * m) ys))))"
  using assms
proof (induction n arbitrary: ys)
  case 0
  then show ?case by simp
next
  case (Suc n)
  have len: "length (concat (map R [0..<n])) = n * m"
    using Suc.prems(2) by (intro length_concat_rows) simp
  have ly: "length (take (n * m) ys) = n * m" using Suc.prems(1) by simp
  have ih: "sum_list (map2 h (concat (map R [0..<n])) (take (n * m) ys)) =
        (\<Sum>i<n. sum_list (map2 h (R i) (take m (drop (i * m) (take (n * m) ys)))))"
    using Suc.IH [OF ly] Suc.prems(2) by simp
  have inner: "take m (drop (i * m) (take (n * m) ys)) = take m (drop (i * m) ys)" if "i < n" for i
  proof -
    have "Suc i \<le> n" using that by simp
    then have "Suc i * m \<le> n * m" by (rule mult_le_mono1)
    then have "m \<le> n * m - i * m" by simp
    then show ?thesis by (simp add: drop_take min_def)
  qed
  have last: "take m (drop (n * m) ys) = drop (n * m) ys"
    using Suc.prems(1) by simp
  have "sum_list (map2 h (concat (map R [0..<Suc n])) ys) =
        sum_list (map2 h (concat (map R [0..<n])) (take (n * m) ys)) +
        sum_list (map2 h (R n) (drop (n * m) ys))"
    by (simp add: zip_append1 len)
  also have "\<dots> = (\<Sum>i<n. sum_list (map2 h (R i) (take m (drop (i * m) ys)))) +
        sum_list (map2 h (R n) (take m (drop (n * m) ys)))"
    using inner by (simp add: ih last)
  finally show ?case by simp
qed

lemma sum_list_map2_index_grid:
  assumes "length xs = nx * ny * nz"
  shows "sum_list (map2 h (index_grid (nx, ny, nz)) xs) =
         (\<Sum>i<nx. \<Sum>j<ny. \<Sum>k<nz. h (i, j, k) (xs ! ((i * ny + j) * nz + k)))"
proof -
  let ?row = "\<lambda>i j. map (\<lambda>k. (i, j, k)) [0..<nz]"
  let ?plane = "\<lambda>i. concat (map (?row i) [0..<ny])"
  have lp: "length (?plane i) = ny * nz" for i
    by (intro length_concat_rows) simp
  have a: "length xs = nx * (ny * nz)" using assms by (simp add: mult.assoc)
  have outer: "sum_list (map2 h (index_grid (nx, ny, nz)) xs) =
      (\<Sum>i<nx. sum_list (map2 h (?plane i) (take (ny * nz) (drop (i * (ny * nz)) xs))))"
    unfolding index_grid_def prod.case
    by (rule sum_list_map2_concat [OF a]) (rule lp)
  have plane: "sum_list (map2 h (?plane i) (take (ny * nz) (drop (i * (ny * nz)) xs))) =
      (\<Sum>j<ny. \<Sum>k<nz. h (i, j, k) (xs ! ((i * ny + j) * nz + k)))" if i: "i < nx" for i
  proof -
    let ?ys = "take (ny * nz) (drop (i * (ny * nz)) xs)"
    have "Suc i * (ny * nz) \<le> nx * (ny * nz)" using i by (intro mult_le_mono1) simp
    then have ly: "length ?ys = ny * nz" using a by simp
    have mid: "sum_list (map2 h (?plane i) ?ys) =
        (\<Sum>j<ny. sum_list (map2 h (?row i j) (take nz (drop (j * nz) ?ys))))"
      by (rule sum_list_map2_concat [OF ly]) simp
    have row: "sum_list (map2 h (?row i j) (take nz (drop (j * nz) ?ys))) =
        (\<Sum>k<nz. h (i, j, k) (xs ! ((i * ny + j) * nz + k)))" if j: "j < ny" for j
    proof -
      let ?zs = "take nz (drop (j * nz) ?ys)"
      have "Suc j * nz \<le> ny * nz" using j by (intro mult_le_mono1) simp
      then have lz: "length ?zs = nz" using ly by simp
      have nth: "?zs ! k = xs ! ((i * ny + j) * nz + k)" if k: "k < nz" for k
      proof -
        have 1: "j * nz + k < ny * nz"
          using flat_index_less [of 0 1 j ny k nz] j k by simp
        have 2: "i * (ny * nz) + (j * nz + k) < length xs"
          using flat_index_less [OF i j k] assms by (simp add: algebra_simps)
        have "?zs ! k = drop (j * nz) ?ys ! k" using k by (rule nth_take)
        also have "\<dots> = ?ys ! (j * nz + k)"
        proof (rule nth_drop)
          show "j * nz \<le> length ?ys" unfolding ly using 1 by linarith
        qed
        also have "\<dots> = drop (i * (ny * nz)) xs ! (j * nz + k)" using 1 by (rule nth_take)
        also have "\<dots> = xs ! (i * (ny * nz) + (j * nz + k))"
        proof (rule nth_drop)
          show "i * (ny * nz) \<le> length xs" using 2 by linarith
        qed
        also have "i * (ny * nz) + (j * nz + k) = (i * ny + j) * nz + k"
          by (simp add: algebra_simps)
        finally show ?thesis .
      qed
      have "sum_list (map2 h (?row i j) ?zs) = (\<Sum>k<nz. h (i, j, k) (?zs ! k))"
        by (rule sum_list_map2_upt [OF lz])
      also have "\<dots> = (\<Sum>k<nz. h (i, j, k) (xs ! ((i * ny + j) * nz + k)))"
      proof (rule sum.cong)
        fix k assume "k \<in> {..<nz}"
        then have "k < nz" by simp
        from nth [OF this] show "h (i, j, k) (?zs ! k) = h (i, j, k) (xs ! ((i * ny + j) * nz + k))"
          by (simp only:)
      qed (rule refl)
      finally show ?thesis .
    qed
    show ?thesis unfolding mid by (rule sum.cong) (simp_all add: row)
  qed
  show ?thesis unfolding outer by (rule sum.cong) (simp_all add: plane)
qed

lemma np_sum_grid_sum:
  assumes "well_formed density"
  shows "np_sum density = grid_sum (shape density) (\<lambda>i j k. item density i j k)"
proof -
  obtain nx ny nz where s: "shape density = (nx, ny, nz)" by (cases "shape density")
  have len: "length (elems density) = nx * ny * nz"
    using assms s by (simp add: well_formed_def size_of_def)
  have li: "length (index_grid (nx, ny, nz)) = nx * ny * nz"
    unfolding index_grid_def prod.case
    by (simp add: length_concat_rows [where m = "ny * nz"] length_concat_rows [where m = nz])
  have "map2 (\<lambda>t x. x) (index_grid (nx, ny, nz)) (elems density) = elems density"
    using len li by (simp add: case_prod_unfold map_snd_zip flip: map_map)
  then have "sum_list (elems density) =
      sum_list (map2 (\<lambda>t x. x) (index_grid (nx, ny, nz)) (elems density))" by simp
  also have "\<dots> = (\<Sum>i<nx. \<Sum>j<ny. \<Sum>k<nz. elems density ! ((i * ny + j) * nz + k))"
    by (rule sum_list_map2_index_grid [OF len])
  finally show ?thesis
    by (simp add: np_sum_def grid_sum_def s item_def)
qed

lemma weighted_sum_grid_sum:
  assumes "well_formed density" "shape density = s"
  shows "sum_list (map2 (\<lambda>x y. x * y) (map g (index_grid s)) (elems density))
         = grid_sum s (\<lambda>i j k. g (i, j, k) * item density i j k)"
proof -
  obtain nx ny nz where s: "s = (nx, ny, nz)" by (cases s)
  have len: "length (elems density) = nx * ny * nz"
    using assms s by (simp add: well_formed_def size_of_def)
  have "map2 (\<lambda>x y. x * y) (map g (index_grid s)) (elems density) =
        map2 (\<lambda>t y. g t * y) (index_grid s) (elems density)"
    by (simp add: zip_map1 case_prod_unfold)
  then show ?thesis
    using sum_list_map2_index_grid [OF len, of "\<lambda>t y. g t * y"] assms(2)
    by (simp add: s grid_sum_def item_def)
qed

lemma weighted_mean_on_grid:
  assumes "well_formed density" "shape density = s" "t \<noteq> 0"
  shows "weighted_mean density t \<lparr>shape = s, elems = map g (index_grid s)\<rparr> =
         Inr (grid_sum s (\<lambda>i j k. g (i, j, k) * item density i j k) / t)"
  using assms weighted_sum_grid_sum [OF assms(1,2), of g]
  by (simp add: weighted_mean_def np_multiply_def elementwise_def np_sum_def true_divide_def)

lemma grid_position_diagonal:
  assumes "idx < length origin" "idx < length grid_spacing" "idx < length (grid_spacing ! idx)"
  shows "grid_position origin s grid_spacing idx =
     Inr \<lparr>shape = s, elems = map (\<lambda>t. axis_position origin grid_spacing idx (component idx t))
                                (index_grid s)\<rparr>"
  using assms by (simp add: grid_position_def py_nth_def axis_position_def)

lemma calculate_centroid_on_grid:
  assumes "np_sum density \<noteq> 0" "on_grid density grid_size" "has_diagonal origin grid_spacing"
  shows "calculate_centroid density origin grid_size grid_spacing =
     ([(DEBUG, CalculatedCentroid (map (weighted_mean_position density origin grid_spacing) [0, 1, 2]))],
      Inr (map (weighted_mean_position density origin grid_spacing) [0, 1, 2]))"
proof -
  obtain nx ny nz where g: "grid_size = (nx, ny, nz)" by (cases grid_size)
  let ?s = "(nat nx, nat ny, nat nz)"
  have wf: "well_formed density" and sh: "shape density = ?s"
    and nn: "0 \<le> nx" "0 \<le> ny" "0 \<le> nz"
    using assms(2) g by (simp_all add: on_grid_def)
  have ind: "np_indices grid_size = Inr ?s"
    using nn by (simp add: np_indices_def g)
  have d: "0 < length origin" "1 < length origin" "2 < length origin"
    "0 < length grid_spacing" "1 < length grid_spacing" "2 < length grid_spacing"
    "0 < length (grid_spacing ! 0)" "1 < length (grid_spacing ! 1)" "2 < length (grid_spacing ! 2)"
    using assms(3) by (auto simp: has_diagonal_def)
  have tot: "np_sum density = grid_sum ?s (\<lambda>i j k. item density i j k)"
    using np_sum_grid_sum [OF wf] sh by simp
  have pos: "sequence (map (grid_position origin ?s grid_spacing) [0, 1, 2]) =
     Inr (map (\<lambda>idx. \<lparr>shape = ?s, elems = map (\<lambda>t. axis_position origin grid_spacing idx
                 (component idx t)) (index_grid ?s)\<rparr>) [0, 1, 2])"
    using d by (simp add: grid_position_diagonal)
  have mean: "weighted_mean density (np_sum density)
       \<lparr>shape = ?s, elems = map (\<lambda>t. axis_position origin grid_spacing idx (component idx t))
                                (index_grid ?s)\<rparr> =
     Inr (weighted_mean_position density origin grid_spacing idx)" for idx
    using weighted_mean_on_grid [OF wf sh assms(1)]
    by (simp add: weighted_mean_position_def sh flip: tot)
  show ?thesis
    unfolding calculate_centroid_def Let_def ind sum.case pos
    using assms(1) by (simp add: mean)
qed

lemma weighted_mean_position_diagonal:
  assumes "spacing' ! a ! a = grid_spacing ! a ! a"
  shows "weighted_mean_position density origin spacing' a =
         weighted_mean_position density origin grid_spacing a"
  using assms by (simp add: weighted_mean_position_def axis_position_def)

text \<open>
  Claim C1. For a density field on the grid whose total is not zero, every component of
  the result of \<open>calculate_centroid\<close> is the density-weighted mean position
  \<open>sum(position * density) / sum(density)\<close>, where the position of the index
  \<open>(i, j, k)\<close> on axis \<open>a\<close> is \<open>origin[a] + index_a * grid_spacing[a][a]\<close>; the entries of
  the spacing matrix off the diagonal do not change the result.
\<close>

theorem centroid_is_weighted_mean:
  assumes "np_sum density \<noteq> 0" "on_grid density grid_size" "has_diagonal origin grid_spacing"
  shows "snd (calculate_centroid density origin grid_size grid_spacing) =
           Inr [weighted_mean_position density origin grid_spacing 0,
                weighted_mean_position density origin grid_spacing 1,
                weighted_mean_position density origin grid_spacing 2] \<and>
         (\<forall>spacing'. has_diagonal origin spacing' \<and>
              spacing' ! 0 ! 0 = grid_spacing ! 0 ! 0 \<and>
              spacing' ! 1 ! 1 = grid_spacing ! 1 ! 1 \<and>
              spacing' ! 2 ! 2 = grid_spacing ! 2 ! 2 \<longrightarrow>
              calculate_centroid density origin grid_size spacing' =
              calculate_centroid density origin grid_size grid_spacing)"
proof (intro conjI allI impI)
  show "snd (calculate_centroid density origin grid_size grid_spacing) =
           Inr [weighted_mean_position density origin grid_spacing 0,
                weighted_mean_position density origin grid_spacing 1,
                weighted_mean_position density origin grid_spacing 2]"
    unfolding calculate_centroid_on_grid [OF assms] by simp
next
  fix spacing'
  assume h: "has_diagonal origin spacing' \<and>
              spacing' ! 0 ! 0 = grid_spacing ! 0 ! 0 \<and>
              spacing' ! 1 ! 1 = grid_spacing ! 1 ! 1 \<and>
              spacing' ! 2 ! 2 = grid_spacing ! 2 ! 2"
  then have d: "has_diagonal origin spacing'" by simp
  have "map (weighted_mean_position density origin spacing') [0, 1, 2] =
        map (weighted_mean_position density origin grid_spacing) [0, 1, 2]"
    using h weighted_mean_position_diagonal [of spacing' 0 grid_spacing density origin]
      weighted_mean_position_diagonal [of spacing' 1 grid_spacing density origin]
      weighted_mean_position_diagonal [of spacing' 2 grid_spacing density origin]
    by simp
  then show "calculate_centroid density origin grid_size spacing' =
             calculate_centroid density origin grid_size grid_spacing"
    unfolding calculate_centroid_on_grid [OF assms]
      calculate_centroid_on_grid [OF assms(1,2) d] by simp
qed

text \<open>
  The single-point excess of the specification: a grid of 2 by 2 by 2 cells whose only
  mass is at the index \<open>(1, 1, 1)\<close>.
\<close>

lemma single_point_mean:
  "weighted_mean_position \<lparr>shape = (2, 2, 2), elems = [0, 0, 0, 0, 0, 0, 0, 1]\<rparr> [0, 0, 0]
     [[1, 5, 5], [5, 1, 5], [5, 5, 1]] 0 = 1"
  "weighted_mean_position \<lparr>shape = (2, 2, 2), elems = [0, 0, 0, 0, 0, 0, 0, 1]\<rparr> [0, 0, 0]
     [[1, 5, 5], [5, 1, 5], [5, 5, 1]] 1 = 1"
  "weighted_mean_position \<lparr>shape = (2, 2, 2), elems = [0, 0, 0, 0, 0, 0, 0, 1]\<rparr> [0, 0, 0]
     [[1, 5, 5], [5, 1, 5], [5, 5, 1]] 2 = 1"
  by code_simp+

theorem centroid_is_weighted_mean_witness:
  "np_sum \<lparr>shape = (2, 2, 2), elems = [0, 0, 0, 0, 0, 0, 0, 1]\<rparr> \<noteq> 0 \<and>
   on_grid \<lparr>shape = (2, 2, 2), elems = [0, 0, 0, 0, 0, 0, 0, 1]\<rparr> (2, 2, 2) \<and>
   has_diagonal [0, 0, 0] [[1, 5, 5], [5, 1, 5], [5, 5, 1]] \<and>
   has_diagonal [0, 0, 0] [[1, 0, 0], [0, 1, 0], [0, 0, 1]] \<and>
   snd (calculate_centroid \<lparr>shape = (2, 2, 2), elems = [0, 0, 0, 0, 0, 0, 0, 1]\<rparr> [0, 0, 0]
          (2, 2, 2) [[1, 5, 5], [5, 1, 5], [5, 5, 1]]) = Inr [1, 1, 1] \<and>
   calculate_centroid \<lparr>shape = (2, 2, 2), elems = [0, 0, 0, 0, 0, 0, 0, 1]\<rparr> [0, 0, 0]
          (2, 2, 2) [[1, 0, 0], [0, 1, 0], [0, 0, 1]] =
   calculate_centroid \<lparr>shape = (2, 2, 2), elems = [0, 0, 0, 0, 0, 0, 0, 1]\<rparr> [0, 0, 0]
          (2, 2, 2) [[1, 5, 5], [5, 1, 5], [5, 5, 1]]"
proof -
  let ?d = "\<lparr>shape = (2, 2, 2), elems = [0, 0, 0, 0, 0, 0, 0, 1]\<rparr>"
  let ?sp = "[[1, 5, 5], [5, 1, 5], [5, 5, 1::real]]"
  let ?id = "[[1, 0, 0], [0, 1, 0], [0, 0, 1::real]]"
  have h1: "np_sum ?d \<noteq> 0" by (simp add: np_sum_def)
  have h2: "on_grid ?d (2, 2, 2)" by (simp add: on_grid_def well_formed_def size_of_def)
  have h3: "has_diagonal [0, 0, 0] ?sp" by (simp add: has_diagonal_def)
  have h4: "has_diagonal [0, 0, 0] ?id" by (simp add: has_diagonal_def)
  note t = centroid_is_weighted_mean [OF h1 h2 h3, unfolded single_point_mean]
  from t have a: "snd (calculate_centroid ?d [0, 0, 0] (2, 2, 2) ?sp) = Inr [1, 1, 1]" by simp
  from t have "has_diagonal [0, 0, 0] ?id \<and> ?id ! 0 ! 0 = ?sp ! 0 ! 0 \<and>
      ?id ! 1 ! 1 = ?sp ! 1 ! 1 \<and> ?id ! 2 ! 2 = ?sp ! 2 ! 2 \<longrightarrow>
      calculate_centroid ?d [0, 0, 0] (2, 2, 2) ?id = calculate_centroid ?d [0, 0, 0] (2, 2, 2) ?sp"
    by blast
  then have b: "calculate_centroid ?d [0, 0, 0] (2, 2, 2) ?id =
      calculate_centroid ?d [0, 0, 0] (2, 2, 2) ?sp"
    using h4 by simp
  show ?thesis using h1 h2 h3 h4 a b by blast
qed

subsection \<open>Swapping the ground and the excited state\<close>

lemma map2_parts_swap:
  "map2 positive_part ys xs = map uminus (map2 negative_part xs ys)"
  "map2 negative_part ys xs = map uminus (map2 positive_part xs ys)"
  by (induction xs ys rule: list_induct2') (simp_all add: positive_part_def negative_part_def)

lemma density_difference_swapped:
  assumes "shape ground = shape excited"
  shows "snd (compute_density_difference excited ground) =
     Inr (np_negative \<lparr>shape = shape excited, elems = map2 negative_part (elems excited) (elems ground)\<rparr>,
          np_negative \<lparr>shape = shape excited, elems = map2 positive_part (elems excited) (elems ground)\<rparr>)"
  using assms density_difference_same_shape [of excited ground]
    map2_parts_swap [of "elems ground" "elems excited"]
  by (simp add: np_negative_def)

lemma np_sum_negative: "np_sum (np_negative a) = - np_sum a"
proof -
  have "sum_list (map uminus xs) = - sum_list xs" for xs :: "real list"
    by (induction xs) simp_all
  then show ?thesis by (simp add: np_sum_def np_negative_def)
qed

lemma sequence_Inr_set: "sequence rs = Inr xs \<Longrightarrow> x \<in> set xs \<Longrightarrow> Inr x \<in> set rs"
  by (induction rs arbitrary: xs) (auto split: sum.splits)

lemma grid_position_shape: "grid_position origin s grid_spacing idx = Inr p \<Longrightarrow> shape p = s"
  by (auto simp: grid_position_def py_nth_def split: if_splits)

lemma weighted_mean_negative:
  assumes "shape p = shape d" "t \<noteq> 0"
  shows "weighted_mean (np_negative d) (- t) p = weighted_mean d t p"
proof -
  have "sum_list (map2 (\<lambda>x y. x * y) xs (map uminus ys)) = - sum_list (map2 (\<lambda>x y. x * y) xs ys)"
    for xs ys :: "real list"
    by (induction xs ys rule: list_induct2') simp_all
  then show ?thesis
    using assms
    by (simp add: weighted_mean_def np_multiply_def elementwise_def np_negative_def np_sum_def
        true_divide_def)
qed

lemma calculate_centroid_negative:
  assumes "on_grid density grid_size"
  shows "calculate_centroid (np_negative density) origin grid_size grid_spacing =
         calculate_centroid density origin grid_size grid_spacing"
proof (cases "np_sum density = 0")
  case True
  then show ?thesis by (simp add: calculate_centroid_def np_sum_negative)
next
  case False
  obtain nx ny nz where g: "grid_size = (nx, ny, nz)" by (cases grid_size)
  let ?s = "(nat nx, nat ny, nat nz)"
  have sh: "shape density = ?s" and ind: "np_indices grid_size = Inr ?s"
    using assms g by (simp_all add: on_grid_def np_indices_def)
  show ?thesis
  proof (cases "sequence (map (grid_position origin ?s grid_spacing) [0, 1, 2])")
    case (Inl e)
    then show ?thesis
      unfolding calculate_centroid_def Let_def ind sum.case np_sum_negative
      using False by simp
  next
    case (Inr ps)
    have "weighted_mean (np_negative density) (- np_sum density) p =
          weighted_mean density (np_sum density) p" if "p \<in> set ps" for p
    proof -
      from sequence_Inr_set [OF Inr that] obtain idx
        where "grid_position origin ?s grid_spacing idx = Inr p" by auto
      then have "shape p = shape density" using grid_position_shape sh by simp
      then show ?thesis using False by (rule weighted_mean_negative)
    qed
    then have eq: "map (weighted_mean (np_negative density) (- np_sum density)) ps =
               map (weighted_mean density (np_sum density)) ps" by simp
    show ?thesis
      unfolding calculate_centroid_def Let_def ind sum.case np_sum_negative Inr eq
      using False by simp
  qed
qed


lemma calculate_centroid_error:
  assumes "on_grid density grid_size"
    and "snd (calculate_centroid density origin grid_size grid_spacing) = Inl e"
  shows "e = IndexError"
proof (cases "np_sum density = 0")
  case True
  then show ?thesis using assms(2) by (simp add: calculate_centroid_def)
next
  case False
  obtain nx ny nz where g: "grid_size = (nx, ny, nz)" by (cases grid_size)
  let ?s = "(nat nx, nat ny, nat nz)"
  have sh: "shape density = ?s" and ind: "np_indices grid_size = Inr ?s"
    using assms g by (simp_all add: on_grid_def np_indices_def)
  show ?thesis
  proof (cases "sequence (map (grid_position origin ?s grid_spacing) [0, 1, 2])")
    case (Inl e')
    then have "Inl e' \<in> set (map (grid_position origin ?s grid_spacing) [0, 1, 2])"
      by (rule sequence_Inl_iff)
    then have "e' = IndexError"
      by (auto simp: grid_position_def py_nth_def split: if_splits)
    moreover have "e = e'"
      using assms(2) False unfolding calculate_centroid_def Let_def ind sum.case Inl by simp
    ultimately show ?thesis by simp
  next
    case (Inr ps)
    show ?thesis
    proof (cases "sequence (map (weighted_mean density (np_sum density)) ps)")
      case c: (Inl e')
      then have "Inl e' \<in> set (map (weighted_mean density (np_sum density)) ps)"
        by (rule sequence_Inl_iff)
      then obtain p where p: "p \<in> set ps" "weighted_mean density (np_sum density) p = Inl e'"
        by auto
      from sequence_Inr_set [OF Inr p(1)] obtain idx
        where "grid_position origin ?s grid_spacing idx = Inr p" by auto
      then have "shape p = shape density" using grid_position_shape sh by simp
      then have False
        using p(2) False
        by (simp add: weighted_mean_def np_multiply_def elementwise_def true_divide_def)
      then show ?thesis ..
    next
      case c: (Inr c)
      then show ?thesis
        using assms(2) False unfolding calculate_centroid_def Let_def ind sum.case Inr by simp
    qed
  qed
qed

lemma euclidean_distance_commute: "euclidean_distance u v = euclidean_distance v u"
  by (simp add: euclidean_distance_def power2_commute)

lemma dct_and_qct_swapped:
  assumes "on_grid p grid_size" "on_grid m grid_size"
  shows "snd (compute_dct_and_qct (np_negative m) (np_negative p) origin grid_size grid_spacing) =
     (case snd (compute_dct_and_qct p m origin grid_size grid_spacing) of
        Inl e \<Rightarrow> Inl e
      | Inr (dct, qct, centroid_plus, centroid_minus) \<Rightarrow>
          Inr (dct, - np_sum m, centroid_minus, centroid_plus))"
proof -
  let ?cp = "snd (calculate_centroid p origin grid_size grid_spacing)"
  let ?cm = "snd (calculate_centroid m origin grid_size grid_spacing)"
  have swapped: "snd (compute_dct_and_qct (np_negative m) (np_negative p) origin grid_size grid_spacing) =
     (case ?cm of Inl e \<Rightarrow> Inl e
      | Inr cm \<Rightarrow> (case ?cp of Inl e \<Rightarrow> Inl e
          | Inr cp \<Rightarrow> Inr (euclidean_distance cm cp, - np_sum m, cm, cp)))"
    unfolding compute_dct_and_qct_result calculate_centroid_negative [OF assms(1)]
        calculate_centroid_negative [OF assms(2)] np_sum_negative
    by (rule refl)
  have original: "snd (compute_dct_and_qct p m origin grid_size grid_spacing) =
     (case ?cp of Inl e \<Rightarrow> Inl e
      | Inr cp \<Rightarrow> (case ?cm of Inl e \<Rightarrow> Inl e
          | Inr cm \<Rightarrow> Inr (euclidean_distance cp cm, np_sum p, cp, cm)))"
    by (rule compute_dct_and_qct_result)
  show ?thesis
  proof (cases ?cp)
    case p: (Inl e1)
    then have e1: "e1 = IndexError" using calculate_centroid_error [OF assms(1)] by blast
    show ?thesis
    proof (cases ?cm)
      case (Inl e2)
      then have "e2 = IndexError" using calculate_centroid_error [OF assms(2)] by blast
      then show ?thesis using p e1 Inl by (simp add: swapped original)
    next
      case (Inr cm)
      then show ?thesis using p by (simp add: swapped original)
    qed
  next
    case p: (Inr cp)
    show ?thesis
    proof (cases ?cm)
      case (Inl e2)
      then show ?thesis using p by (simp add: swapped original)
    next
      case (Inr cm)
      then show ?thesis
        using p euclidean_distance_commute [of cm cp] by (simp add: swapped original)
    qed
  qed
qed

lemma on_grid_parts:
  assumes "shape ground = shape excited" "on_grid ground grid_size" "well_formed excited"
  shows "on_grid \<lparr>shape = shape excited, elems = map2 f (elems excited) (elems ground)\<rparr> grid_size"
  using assms by (auto simp: on_grid_def well_formed_def split: prod.splits)

text \<open>
  Claim C6, amended. For two densities of one shape on the grid, swapping ground and
  excited negates the density difference (the new positive part is the negative of the
  old negative part, and conversely), swaps the two centroids and leaves dct unchanged;
  the new qct is minus the sum of the old negative part, and an error of the computation
  is the same error after the swap.
\<close>

theorem swap_ground_and_excited:
  assumes "shape ground = shape excited" "on_grid ground grid_size" "well_formed excited"
  shows "case snd (compute_density_difference ground excited) of
           Inl e \<Rightarrow> False
         | Inr (delta_rho_plus, delta_rho_minus) \<Rightarrow>
             snd (compute_density_difference excited ground) =
               Inr (np_negative delta_rho_minus, np_negative delta_rho_plus) \<and>
             pipeline excited ground origin grid_size grid_spacing =
               (case pipeline ground excited origin grid_size grid_spacing of
                  Inl e \<Rightarrow> Inl e
                | Inr (dct, qct, centroid_plus, centroid_minus) \<Rightarrow>
                    Inr (dct, - np_sum delta_rho_minus, centroid_minus, centroid_plus))"
proof -
  let ?p = "\<lparr>shape = shape excited, elems = map2 positive_part (elems excited) (elems ground)\<rparr>"
  let ?m = "\<lparr>shape = shape excited, elems = map2 negative_part (elems excited) (elems ground)\<rparr>"
  have r: "snd (compute_density_difference ground excited) = Inr (?p, ?m)"
    using assms(1) by (rule density_difference_same_shape)
  have s: "snd (compute_density_difference excited ground) = Inr (np_negative ?m, np_negative ?p)"
    using assms(1) by (rule density_difference_swapped)
  have gp: "on_grid ?p grid_size" and gm: "on_grid ?m grid_size"
    using assms by (rule on_grid_parts)+
  have "pipeline excited ground origin grid_size grid_spacing =
      (case pipeline ground excited origin grid_size grid_spacing of
         Inl e \<Rightarrow> Inl e
       | Inr (dct, qct, centroid_plus, centroid_minus) \<Rightarrow>
           Inr (dct, - np_sum ?m, centroid_minus, centroid_plus))"
    unfolding pipeline_def r s sum.case prod.case
    by (rule dct_and_qct_swapped [OF gp gm])
  then show ?thesis unfolding r using s by simp
qed

lemma centroid_example_single:
  "calculate_centroid \<lparr>shape = (2, 1, 1), elems = [0, 1]\<rparr> [0, 0, 0] (2, 1, 1)
     [[1, 0, 0], [0, 1, 0], [0, 0, 1]] = ([(DEBUG, CalculatedCentroid [1, 0, 0])], Inr [1, 0, 0])"
  "calculate_centroid \<lparr>shape = (2, 1, 1), elems = [0, - 1]\<rparr> [0, 0, 0] (2, 1, 1)
     [[1, 0, 0], [0, 1, 0], [0, 0, 1]] = ([(DEBUG, CalculatedCentroid [1, 0, 0])], Inr [1, 0, 0])"
  "calculate_centroid \<lparr>shape = (2, 1, 1), elems = [0, 0]\<rparr> [0, 0, 0] (2, 1, 1)
     [[1, 0, 0], [0, 1, 0], [0, 0, 1]] = ([(WARNING, TotalDensityZero)], Inr [0, 0, 0])"
  by code_simp+

lemma difference_example_single:
  "snd (compute_density_difference \<lparr>shape = (2, 1, 1), elems = [0, 0]\<rparr>
          \<lparr>shape = (2, 1, 1), elems = [0, 1]\<rparr>) =
     Inr (\<lparr>shape = (2, 1, 1), elems = [0, 1]\<rparr>, \<lparr>shape = (2, 1, 1), elems = [0, 0]\<rparr>)"
  "snd (compute_density_difference \<lparr>shape = (2, 1, 1), elems = [0, 1]\<rparr>
          \<lparr>shape = (2, 1, 1), elems = [0, 0]\<rparr>) =
     Inr (\<lparr>shape = (2, 1, 1), elems = [0, 0]\<rparr>, \<lparr>shape = (2, 1, 1), elems = [0, - 1]\<rparr>)"
  by (simp_all add: compute_density_difference_def np_subtract_def elementwise_def np_where_def
      Let_def)

text \<open>
  The swap does not negate qct: with a single excess of 1 the transferred charge is 1,
  and 0 after the swap.
\<close>

theorem swap_negates_qct_counterexample:
  "pipeline \<lparr>shape = (2, 1, 1), elems = [0, 0]\<rparr> \<lparr>shape = (2, 1, 1), elems = [0, 1]\<rparr>
     [0, 0, 0] (2, 1, 1) [[1, 0, 0], [0, 1, 0], [0, 0, 1]] = Inr (1, 1, [1, 0, 0], [0, 0, 0]) \<and>
   pipeline \<lparr>shape = (2, 1, 1), elems = [0, 1]\<rparr> \<lparr>shape = (2, 1, 1), elems = [0, 0]\<rparr>
     [0, 0, 0] (2, 1, 1) [[1, 0, 0], [0, 1, 0], [0, 0, 1]] = Inr (1, 0, [0, 0, 0], [1, 0, 0]) \<and>
   (0::real) \<noteq> - 1"
  unfolding pipeline_def difference_example_single sum.case prod.case compute_dct_and_qct_def
    centroid_example_single
  by (simp add: linalg_norm_def vector_minus_def np_sum_def)

theorem swap_ground_and_excited_witness:
  "shape \<lparr>shape = (2, 1, 1), elems = [1, 5]\<rparr> = shape \<lparr>shape = (2, 1, 1), elems = [3, 2]\<rparr> \<and>
   on_grid \<lparr>shape = (2, 1, 1), elems = [1, 5]\<rparr> (2, 1, 1) \<and>
   well_formed \<lparr>shape = (2, 1, 1), elems = [3, 2]\<rparr> \<and>
   snd (compute_density_difference \<lparr>shape = (2, 1, 1), elems = [3, 2]\<rparr>
          \<lparr>shape = (2, 1, 1), elems = [1, 5]\<rparr>) =
     Inr (np_negative \<lparr>shape = (2, 1, 1), elems = [0, - 3]\<rparr>,
          np_negative \<lparr>shape = (2, 1, 1), elems = [2, 0]\<rparr>) \<and>
   pipeline \<lparr>shape = (2, 1, 1), elems = [1, 5]\<rparr> \<lparr>shape = (2, 1, 1), elems = [3, 2]\<rparr>
     [0, 0, 0] (2, 1, 1) [[1, 0, 0], [0, 1, 0], [0, 0, 1]] = Inr (1, 2, [0, 0, 0], [1, 0, 0]) \<and>
   pipeline \<lparr>shape = (2, 1, 1), elems = [3, 2]\<rparr> \<lparr>shape = (2, 1, 1), elems = [1, 5]\<rparr>
     [0, 0, 0] (2, 1, 1) [[1, 0, 0], [0, 1, 0], [0, 0, 1]] = Inr (1, 3, [1, 0, 0], [0, 0, 0])"
proof -
  let ?g = "\<lparr>shape = (2, 1, 1), elems = [1, 5]\<rparr>"
  let ?e = "\<lparr>shape = (2, 1, 1), elems = [3, 2]\<rparr>"
  let ?id = "[[1, 0, 0], [0, 1, 0], [0, 0, 1::real]]"
  have h1: "shape ?g = shape ?e" by simp
  have h2: "on_grid ?g (2, 1, 1)" by (simp add: on_grid_def well_formed_def size_of_def)
  have h3: "well_formed ?e" by (simp add: well_formed_def size_of_def)
  have p: "pipeline ?g ?e [0, 0, 0] (2, 1, 1) ?id = Inr (1, 2, [0, 0, 0], [1, 0, 0])"
    unfolding pipeline_def density_difference_example sum.case prod.case
    by (rule dct_and_qct_example)
  note t = swap_ground_and_excited [OF h1 h2 h3, of "[0, 0, 0]" ?id,
      unfolded density_difference_example sum.case prod.case p]
  have n: "- np_sum \<lparr>shape = (2, 1, 1), elems = [0, - 3]\<rparr> = 3" by (simp add: np_sum_def)
  show ?thesis using h1 h2 h3 p t unfolding n by blast
qed

subsection \<open>Reading a cube file\<close>







































subsection \<open>Grids of different sizes\<close>











end
